theory Spec2Isabelle
  imports Main "HOL-Library.AList" "HOL-Library.List_Lexorder" "HOL-Library.Char_ord"
begin

section \<open>The tree tools of \<open>dvc_data/cli.py\<close>\<close>

text \<open>
  The command line module \<open>src/dvc_data/cli.py\<close> edits tree objects of a content
  addressed store: \<open>apply_op\<close> applies one patch record to a tree, \<open>process_patch\<close>
  collects the records, \<open>update_tree\<close> runs a batch and persists the result,
  \<open>merge_tree\<close> merges two stored trees and \<open>from_shortoid\<close> resolves a digest prefix.
  Python exceptions are values of \<open>error\<close>; a function that may raise returns
  \<open>error + 'a\<close>. Objects mutated in place are passed in and returned.
\<close>

subsection \<open>Data\<close>

type_synonym key = "string list"
  \<comment> \<open>a path key: the tuple of path segments\<close>
type_synonym meta = string
  \<comment> \<open>\<open>Meta\<close>, opaque to this module\<close>
type_synonym oid = string
  \<comment> \<open>\<open>HashInfo\<close>: the hash name is always md5 here, so only the value is kept\<close>
type_synonym entry = "meta \<times> oid"
type_synonym pydict = "(key \<times> entry) list"
  \<comment> \<open>\<open>Tree._dict\<close>: a Python dict, in insertion order\<close>

datatype error =
    AssertionError
  | KeyError "string list"
  | ValueError string
  | TypeError
  | AttributeError
  | FileExistsError string
  | FileNotFoundError string
  | Exit nat

text \<open>What \<open>typer.echo\<close> prints, one value for each call.\<close>

datatype message =
    Text string
  | NotAValidOid string
  | AmbiguousOid string
  | ShowError error
  | ShowTree pydict "oid option"

text \<open>
  A \<open>Tree\<close> object. \<open>trie\<close> is the \<open>cached_property\<close> kept in the instance's
  \<open>__dict__\<close>: \<open>None\<close> when no value is cached, otherwise the snapshot of \<open>_dict\<close>
  the index was built from. \<open>hash_info\<close> is the digest computed last, and \<open>fs_path\<close>
  stands for the file (\<open>fs\<close>, \<open>path\<close>) holding the serialisation computed with it.
\<close>

record tree =
  dict :: pydict
  trie :: "pydict option"
  hash_info :: "oid option"
  fs_path :: "pydict option"

datatype obj = HashFile | TreeObj pydict

type_synonym odb = "(oid \<times> obj) list"
  \<comment> \<open>the object database: what is stored under each digest\<close>

type_synonym local_fs = "(string \<times> entry) list"
  \<comment> \<open>\<open>LocalFileSystem\<close>: for each existing file its metadata and the md5 of its content\<close>

type_synonym application = "(string \<times> string) list"
  \<comment> \<open>one patch record, a JSON object with string fields\<close>

subsection \<open>Python primitives\<close>

text \<open>\<open>str.split(sep)\<close> for a one-character separator: never the empty list.\<close>

fun split :: "char \<Rightarrow> string \<Rightarrow> string list" where
  "split sep [] = [ []]"
| "split sep (c # cs) =
     (if c = sep then [] # split sep cs
      else (case split sep cs of [] \<Rightarrow> [ [c]] | w # ws \<Rightarrow> (c # w) # ws))"

definition has_key :: "('k \<times> 'v) list \<Rightarrow> 'k \<Rightarrow> bool" where
  \<comment> \<open>\<open>k in d\<close>\<close>
  "has_key d k = (k \<in> set (map fst d))"

definition dict_pop :: "pydict \<Rightarrow> key \<Rightarrow> error + pydict" where
  \<comment> \<open>\<open>d.pop(k)\<close> with no default: KeyError on a missing key\<close>
  "dict_pop d k = (if has_key d k then Inr (AList.delete k d) else Inl (KeyError k))"

subsection \<open>Collaborators that are not part of \<open>cli.py\<close>\<close>

text \<open>
  Modelled from the spec: \<open>Tree.add\<close> of \<open>dvc_data/objects/tree.py\<close>, which is not among
  the sources. "add(key, metadata, digest): inserts or overwrites the entry at key. No
  constraint violation is possible (overwrite is allowed); invalidates any cached index
  and any previously finalized digest."
\<close>

definition tree_add :: "tree \<Rightarrow> key \<Rightarrow> meta \<Rightarrow> oid \<Rightarrow> tree" where
  "tree_add t k m h =
     t\<lparr>dict := AList.update k (m, h) (dict t), trie := None, hash_info := None\<rparr>"

text \<open>
  Modelled from the spec: \<open>Tree.get\<close> of \<open>dvc_data/objects/tree.py\<close>.
  "get(key) -> (metadata, digest): fails with NotFound if key is absent."
\<close>

definition tree_get :: "tree \<Rightarrow> key \<Rightarrow> error + entry" where
  "tree_get t k =
     (case map_of (dict t) k of
        None \<Rightarrow> Inl (KeyError k)
      | Some e \<Rightarrow> Inr e)"

text \<open>
  Modelled from the spec: \<open>build\<close> of \<open>dvc_data/build.py\<close>, called as
  \<open>_build(odb, path, fs, "md5")\<close>. "inserts new entry built from external content at
  path, digest computed via content hashing": the metadata and the digest are those of the
  file at \<open>path\<close>; a path with no file is the filesystem's FileNotFoundError.
\<close>

definition build :: "local_fs \<Rightarrow> string \<Rightarrow> error + entry" where
  "build fs path =
     (case map_of fs path of
        None \<Rightarrow> Inl (FileNotFoundError path)
      | Some e \<Rightarrow> Inr e)"

text \<open>
  Modelled from the spec: \<open>HashFileDB.add\<close> of \<open>dvc_data/hashfile/db.py\<close>.
  "The object store is assumed to provide at-most-once write semantics for a given digest
  (idempotent add)": an object whose digest is present is not written again.
\<close>

definition odb_add :: "odb \<Rightarrow> oid \<Rightarrow> obj \<Rightarrow> odb" where
  "odb_add odb h x = (if has_key odb h then odb else odb @ [(h, x)])"

subsection \<open>\<open>apply_op\<close>\<close>

text \<open>
  \<open>apply_op(odb, obj, application)\<close>, lines 391 to 423. The store and the tree are
  mutated in place; every \<open>raise\<close> comes before the first mutation of the call, so a
  failed call leaves both as they were and the error alone is returned.
\<close>

definition apply_op :: "local_fs \<Rightarrow> odb \<Rightarrow> tree \<Rightarrow> application \<Rightarrow> error + (odb \<times> tree)" where
  "apply_op fs odb obj application =
     (case map_of application ''op'' of
        None \<Rightarrow> Inl AssertionError
      | Some op \<Rightarrow>
     (case map_of application ''path'' of
        None \<Rightarrow> Inl (KeyError [''path''])
      | Some path \<Rightarrow>
     (let keys = split CHR ''/'' path in
      if op \<in> {''add'', ''modify''} then
        (case map_of application ''to'' of
           None \<Rightarrow> Inl (KeyError [''to''])
         | Some to \<Rightarrow>
        (let new = split CHR ''/'' to in
         if op = ''add'' \<and> has_key (dict obj) new then Inl (FileExistsError path)
         else
           (case build fs path of
              Inl e \<Rightarrow> Inl e
            | Inr (meta, new_obj) \<Rightarrow>
                Inr (odb_add odb new_obj HashFile, tree_add obj new meta new_obj))))
      else if \<not> has_key (dict obj) keys then Inl (FileNotFoundError path)
      else if op = ''test'' then Inr (odb, obj)
      else if op = ''remove'' then
        (case dict_pop (dict obj) keys of
           Inl e \<Rightarrow> Inl e
         | Inr d \<Rightarrow> Inr (odb, obj\<lparr>dict := d, trie := None\<rparr>))
      else if op \<in> {''copy'', ''move''} then
        (case map_of application ''to'' of
           None \<Rightarrow> Inl (KeyError [''to''])
         | Some to \<Rightarrow>
        (let new = split CHR ''/'' to in
         case tree_get obj keys of
           Inl e \<Rightarrow> Inl e
         | Inr (meta, h) \<Rightarrow>
        (let obj1 = tree_add obj new meta h in
         if op = ''move'' then
           (case dict_pop (dict obj1) keys of
              Inl e \<Rightarrow> Inl e
            | Inr d \<Rightarrow> Inr (odb, obj1\<lparr>dict := d\<rparr>))
         else Inr (odb, obj1))))
      else Inl (ValueError op))))"


subsection \<open>More collaborators\<close>

text \<open>
  Modelled from the spec: the \<open>trie\<close> property of \<open>Tree\<close>. "A derived index (e.g.,
  a trie over path-key prefixes for ancestor/descendant queries) is a cache, never
  authoritative; it is invalidated on every structural mutation (add/remove/move) and
  lazily rebuilt on next query." A query returns the cached index when there is one, and
  otherwise builds it from the entries and caches it.
\<close>

definition tree_trie :: "tree \<Rightarrow> pydict \<times> tree" where
  "tree_trie t =
     (case trie t of
        Some c \<Rightarrow> (c, t)
      | None \<Rightarrow> (dict t, t\<lparr>trie := Some (dict t)\<rparr>))"

text \<open>
  Modelled from the spec: \<open>Tree.digest\<close>. "digest() -> content-digest: recomputes and
  caches the tree's own digest from current entries; deterministic given the entry set;
  side-effect: marks the Tree as digest-valid." The serialisation and the hash function
  are the parameter \<open>H\<close>.
\<close>

definition tree_digest :: "(pydict \<Rightarrow> oid) \<Rightarrow> tree \<Rightarrow> tree" where
  "tree_digest H t = t\<lparr>hash_info := Some (H (dict t)), fs_path := Some (dict t)\<rparr>"

text \<open>
  Modelled from the spec: \<open>load\<close> of \<open>dvc_data/__init__.py\<close> with \<open>Tree.load\<close>, applied
  to \<open>odb.get(oid).hash_info\<close>. "load(store, digest) -> Tree: fetches serialized content
  for digest from the object store, deserializes entries"; a digest with no object is
  NotFound. An object that is not a tree is loaded as a plain \<open>HashFile\<close>.
\<close>

datatype loaded = LoadedFile | LoadedTree tree

definition load :: "odb \<Rightarrow> oid \<Rightarrow> error + loaded" where
  "load odb h =
     (case map_of odb h of
        None \<Rightarrow> Inl (FileNotFoundError h)
      | Some HashFile \<Rightarrow> Inr LoadedFile
      | Some (TreeObj d) \<Rightarrow>
          Inr (LoadedTree \<lparr>dict = d, trie = None, hash_info = Some h, fs_path = Some d\<rparr>))"

text \<open>
  \<open>odb.add(tree.path, tree.fs, tree.oid, hardlink=True)\<close>: the arguments read the file
  and the digest that \<open>digest()\<close> left on the tree; on a tree without them the attribute
  access fails.
\<close>

definition odb_add_tree :: "odb \<Rightarrow> tree \<Rightarrow> error + odb" where
  "odb_add_tree odb t =
     (case fs_path t of
        None \<Rightarrow> Inl AttributeError
      | Some content \<Rightarrow>
     (case hash_info t of
        None \<Rightarrow> Inl AttributeError
      | Some h \<Rightarrow> Inr (odb_add odb h (TreeObj content))))"

text \<open>\<open>str.startswith\<close> and \<open>str.endswith\<close>.\<close>

definition startswith :: "string \<Rightarrow> string \<Rightarrow> bool" where
  "startswith s p = (take (length p) s = p)"

definition endswith :: "string \<Rightarrow> string \<Rightarrow> bool" where
  "endswith s p = (length p \<le> length s \<and> drop (length s - length p) s = p)"

text \<open>
  Modelled from the spec: \<open>HashFileDB.exists_prefix\<close>. "short-digest resolution
  (prefix -> digest, failing NotFound if no match, Ambiguous if multiple)"; the two
  failures are the KeyError and the ValueError that \<open>from_shortoid\<close> catches.
\<close>

definition exists_prefix :: "odb \<Rightarrow> string \<Rightarrow> error + oid" where
  "exists_prefix odb short_oid =
     (case filter (\<lambda>h. startswith h short_oid) (map fst odb) of
        [] \<Rightarrow> Inl (KeyError [short_oid])
      | [h] \<Rightarrow> Inr h
      | _ \<Rightarrow> Inl (ValueError short_oid))"

subsection \<open>\<open>from_shortoid\<close>\<close>

text \<open>\<open>str.strip()\<close> on ASCII text: the whitespace characters are 9 to 13 and 28 to 32.\<close>

definition isspace :: "char \<Rightarrow> bool" where
  "isspace c = (let n = (of_char c :: nat) in (9 \<le> n \<and> n \<le> 13) \<or> (28 \<le> n \<and> n \<le> 32))"

definition strip :: "string \<Rightarrow> string" where
  "strip s = rev (dropWhile isspace (rev (dropWhile isspace s)))"

text \<open>
  \<open>from_shortoid(odb, oid)\<close>, lines 136 to 145. The standard input is passed in and what
  is left of it is returned: \<open>sys.stdin.read()\<close> takes all of it. A failure carries what
  was echoed before the \<open>raise\<close>.
\<close>

definition from_shortoid ::
  "odb \<Rightarrow> string \<Rightarrow> string \<Rightarrow> (message list \<times> error) + (string \<times> oid)" where
  "from_shortoid odb stdin oid =
     (let (stdin', oid') = (if oid \<noteq> ''-'' then (stdin, oid) else ([], strip stdin)) in
      case exists_prefix odb oid' of
        Inr full \<Rightarrow> Inr (stdin', full)
      | Inl (KeyError _) \<Rightarrow> Inl ([NotAValidOid oid'], Exit 1)
      | Inl (ValueError _) \<Rightarrow> Inl ([AmbiguousOid oid'], Exit 1)
      | Inl e \<Rightarrow> Inl ([], e))"

subsection \<open>\<open>merge_tree\<close>\<close>

text \<open>
  Modelled from the spec: \<open>ROOT\<close> of \<open>dvc_data/diff.py\<close>. "the empty sequence denotes
  the tree's own root entry".
\<close>

definition ROOT :: key where
  "ROOT = []"

record tree_entry =
  entry_in_cache :: bool
  entry_key :: key
  entry_meta :: "meta option"
  entry_oid :: "oid option"

record change =
  change_old :: tree_entry
  change_new :: tree_entry

record diff_result =
  added :: "change list"
  deleted :: "change list"
  modified :: "change list"
  unchanged :: "change list"

text \<open>
  Modelled from the spec: \<open>diff\<close> of \<open>dvc_data/diff.py\<close>. "four disjoint classifications
  over the union of path keys from two trees: added (key only in new), deleted (key only
  in old), modified (key in both, digest differs), unchanged (key in both, digest equal).
  Each classified item carries both the old and new Entry (whichever applies) plus a flag
  for whether the referenced object is actually present in the local store"; the keys are
  walked in sorted order and a missing tree has no entries.
\<close>

definition tree_entry_of :: "odb \<Rightarrow> pydict \<Rightarrow> key \<Rightarrow> tree_entry" where
  "tree_entry_of odb d k =
     (case map_of d k of
        None \<Rightarrow> \<lparr>entry_in_cache = False, entry_key = k, entry_meta = None, entry_oid = None\<rparr>
      | Some (m, h) \<Rightarrow>
          \<lparr>entry_in_cache = has_key odb h, entry_key = k, entry_meta = Some m,
           entry_oid = Some h\<rparr>)"

definition diff :: "tree option \<Rightarrow> tree option \<Rightarrow> odb \<Rightarrow> diff_result" where
  "diff old_tree new_tree odb =
     (let a = (case old_tree of None \<Rightarrow> [] | Some t \<Rightarrow> dict t);
          b = (case new_tree of None \<Rightarrow> [] | Some t \<Rightarrow> dict t);
          keys = sort (remdups (map fst a @ map fst b));
          ch = (\<lambda>k. \<lparr>change_old = tree_entry_of odb a k, change_new = tree_entry_of odb b k\<rparr>);
          digest = (\<lambda>d k. map_option snd (map_of d k))
      in \<lparr>added = map ch (filter (\<lambda>k. \<not> has_key a k \<and> has_key b k) keys),
          deleted = map ch (filter (\<lambda>k. has_key a k \<and> \<not> has_key b k) keys),
          modified = map ch
            (filter (\<lambda>k. has_key a k \<and> has_key b k \<and> digest a k \<noteq> digest b k) keys),
          unchanged = map ch
            (filter (\<lambda>k. has_key a k \<and> has_key b k \<and> digest a k = digest b k) keys)\<rparr>)"

text \<open>
  Modelled from the spec: \<open>merge\<close> of \<open>dvc_data/objects/tree.py\<close>, called as
  \<open>merge(odb, None, obj1.hash_info, obj2.hash_info)\<close>. "start from tree_a's entries, then
  apply every added and every modified entry from tree_b's side (i.e., new/changed paths
  from b win), preserving tree_a's entries for paths only in a or unchanged across both.
  The merged tree is digest-invalid until explicitly finalized." The two trees are loaded
  from the store by their digests; a missing digest or a digest of no tree is NotFound.
\<close>

definition apply_change :: "change \<Rightarrow> pydict \<Rightarrow> pydict" where
  "apply_change c d =
     (case entry_meta (change_new c) of
        None \<Rightarrow> d
      | Some m \<Rightarrow>
     (case entry_oid (change_new c) of
        None \<Rightarrow> d
      | Some h \<Rightarrow> AList.update (entry_key (change_new c)) (m, h) d))"

definition load_tree :: "odb \<Rightarrow> oid option \<Rightarrow> error + tree" where
  "load_tree odb info =
     (case info of
        None \<Rightarrow> Inl (FileNotFoundError [])
      | Some h \<Rightarrow>
     (case load odb h of
        Inl e \<Rightarrow> Inl e
      | Inr LoadedFile \<Rightarrow> Inl (FileNotFoundError h)
      | Inr (LoadedTree t) \<Rightarrow> Inr t))"

definition merge :: "odb \<Rightarrow> oid option \<Rightarrow> oid option \<Rightarrow> oid option \<Rightarrow> error + tree" where
  "merge odb ancestor_info our_info their_info =
     (case load_tree odb our_info of
        Inl e \<Rightarrow> Inl e
      | Inr a \<Rightarrow>
     (case load_tree odb their_info of
        Inl e \<Rightarrow> Inl e
      | Inr b \<Rightarrow>
     (let d = diff (Some a) (Some b) odb in
      Inr \<lparr>dict = fold apply_change (added d @ modified d) (dict a),
           trie = None, hash_info = None, fs_path = None\<rparr>)))"

text \<open>
  \<open>posixpath.join(a, *p)\<close>: a segment that starts with a slash replaces what was joined
  so far, and no slash is put after an empty path or after a slash. With no argument at
  all the call is a TypeError.
\<close>

definition join_step :: "string \<Rightarrow> string \<Rightarrow> string" where
  "join_step b path =
     (if startswith b ''/'' then b
      else if path = [] \<or> endswith path ''/'' then path @ b
      else path @ ''/'' @ b)"

definition posixpath_join :: "string list \<Rightarrow> error + string" where
  "posixpath_join segs =
     (case segs of
        [] \<Rightarrow> Inl TypeError
      | a # p \<Rightarrow> Inr (fold join_step p a))"

text \<open>A list comprehension whose element expression may raise: the first error wins.\<close>

fun comprehension :: "('a \<Rightarrow> error + 'b) \<Rightarrow> 'a list \<Rightarrow> error + 'b list" where
  "comprehension f [] = Inr []"
| "comprehension f (x # xs) =
     (case f x of
        Inl e \<Rightarrow> Inl e
      | Inr y \<Rightarrow>
     (case comprehension f xs of
        Inl e \<Rightarrow> Inl e
      | Inr ys \<Rightarrow> Inr (y # ys)))"

text \<open>
  The conflict detection of \<open>merge_tree\<close>, lines 347 to 357: the joined keys of the
  modified changes other than the root; when there are any they are echoed under a
  heading and the command exits with code 1.
\<close>

definition detect_conflicts :: "diff_result \<Rightarrow> (message list \<times> error) option" where
  "detect_conflicts d =
     (case comprehension (\<lambda>c. posixpath_join (entry_key (change_old c)))
             (filter (\<lambda>c. entry_key (change_old c) \<noteq> ROOT) (modified d)) of
        Inl e \<Rightarrow> Some ([], e)
      | Inr files \<Rightarrow>
          if files \<noteq> [] then
            Some (Text ''Following files in conflicts:'' # map Text files, Exit 1)
          else None)"

text \<open>
  \<open>merge_tree(oid1, oid2, force)\<close>, lines 336 to 362, on the store that \<open>get_odb()\<close>
  returned. The result is what was echoed, the error if the command failed, the store
  and the merged tree.
\<close>

definition merge_tree ::
  "(pydict \<Rightarrow> oid) \<Rightarrow> odb \<Rightarrow> string \<Rightarrow> string \<Rightarrow> string \<Rightarrow> bool
     \<Rightarrow> message list \<times> error option \<times> odb \<times> tree option" where
  "merge_tree H odb stdin oid1 oid2 force =
     (case from_shortoid odb stdin oid1 of
        Inl (out, e) \<Rightarrow> (out, Some e, odb, None)
      | Inr (stdin1, h1) \<Rightarrow>
     (case from_shortoid odb stdin1 oid2 of
        Inl (out, e) \<Rightarrow> (out, Some e, odb, None)
      | Inr (stdin2, h2) \<Rightarrow>
     (case load odb h1 of
        Inl e \<Rightarrow> ([], Some e, odb, None)
      | Inr loaded1 \<Rightarrow>
     (case load odb h2 of
        Inl e \<Rightarrow> ([], Some e, odb, None)
      | Inr loaded2 \<Rightarrow>
     (case loaded1 of
        LoadedFile \<Rightarrow> ([], Some AssertionError, odb, None)
      | LoadedTree obj1 \<Rightarrow>
     (case loaded2 of
        LoadedFile \<Rightarrow> ([], Some AssertionError, odb, None)
      | LoadedTree obj2 \<Rightarrow>
     (case (if \<not> force then detect_conflicts (diff (Some obj1) (Some obj2) odb) else None) of
        Some (out, e) \<Rightarrow> (out, Some e, odb, None)
      | None \<Rightarrow>
     (case merge odb None (hash_info obj1) (hash_info obj2) of
        Inl e \<Rightarrow> ([], Some e, odb, None)
      | Inr merged \<Rightarrow>
     (let tree = tree_digest H merged in
      case odb_add_tree odb tree of
        Inl e \<Rightarrow> ([ShowTree (dict tree) (hash_info tree)], Some e, odb, Some tree)
      | Inr odb' \<Rightarrow>
          ([ShowTree (dict tree) (hash_info tree)], None, odb', Some tree))))))))))"

subsection \<open>\<open>process_patch\<close> and \<open>update_tree\<close>\<close>

text \<open>
  The \<open>patch_file\<close> argument: click hands the option over as a \<open>str\<close>; a caller of
  \<open>process_patch\<close> may also pass a \<open>pathlib\<close> path. The file's text is taken as already
  parsed by \<open>json.loads\<close> into a list of records.
\<close>

datatype patch_path = StrPath string | PurePath string

datatype item = Tuple string string | Item string

text \<open>
  The loop over the records of the patch file, lines 371 to 377. In the assignment
  \<open>patch[appl]["path"] = os.fspath(patch_file.parent.joinpath(path))\<close> the right-hand
  side is evaluated first: a \<open>str\<close> has no attribute \<open>parent\<close>. Then the target
  \<open>patch[appl]\<close> indexes the list \<open>patch\<close> with the record \<open>appl\<close>, a dict, which is a
  TypeError whatever the list holds. No record is ever changed.
\<close>

fun resolve_paths :: "patch_path \<Rightarrow> application list \<Rightarrow> application list \<Rightarrow> error + application list"
  where
  "resolve_paths patch_file patch [] = Inr patch"
| "resolve_paths patch_file patch (appl # rest) =
     (let op = map_of appl ''op''; path = map_of appl ''path'' in
      if op \<noteq> None \<and> op \<noteq> Some [] \<and> path \<noteq> None \<and> path \<noteq> Some []
         \<and> op \<in> {Some ''add'', Some ''modify''} then
        (case patch_file of
           StrPath f \<Rightarrow> Inl AttributeError
         | PurePath f \<Rightarrow> Inl TypeError)
      else resolve_paths patch_file patch rest)"

definition item_record :: "string \<Rightarrow> item \<Rightarrow> application" where
  "item_record op it =
     (case it of
        Tuple path to \<Rightarrow> [(''op'', op), (''path'', path), (''to'', to)]
      | Item path \<Rightarrow> [(''op'', op), (''path'', path)])"

text \<open>
  \<open>process_patch(patch_file, **kwargs)\<close>, lines 365 to 388; \<open>kwargs\<close> in the order of the
  call.
\<close>

definition process_patch ::
  "(patch_path \<times> application list) option \<Rightarrow> (string \<times> item list) list
     \<Rightarrow> error + application list" where
  "process_patch patch_file kwargs =
     (case (case patch_file of
              None \<Rightarrow> Inr []
            | Some (f, parsed) \<Rightarrow> resolve_paths f parsed parsed) of
        Inl e \<Rightarrow> Inl e
      | Inr patch \<Rightarrow>
          Inr (patch @ concat (map (\<lambda>(op, items). map (item_record op) items) kwargs)))"

text \<open>
  The loop of \<open>update_tree\<close>, lines 487 to 492. A FileExistsError or FileNotFoundError
  is echoed and becomes exit code 1; any other exception leaves the loop as it is. The
  store and the tree are returned as the last successful operation left them.
\<close>

fun update_tree_loop ::
  "local_fs \<Rightarrow> odb \<Rightarrow> tree \<Rightarrow> application list \<Rightarrow> message list \<times> error option \<times> odb \<times> tree"
  where
  "update_tree_loop fs odb obj [] = ([], None, odb, obj)"
| "update_tree_loop fs odb obj (application # patch) =
     (case apply_op fs odb obj application of
        Inl (FileExistsError p) \<Rightarrow> ([ShowError (FileExistsError p)], Some (Exit 1), odb, obj)
      | Inl (FileNotFoundError p) \<Rightarrow>
          ([ShowError (FileNotFoundError p)], Some (Exit 1), odb, obj)
      | Inl exc \<Rightarrow> ([], Some exc, odb, obj)
      | Inr (odb', obj') \<Rightarrow> update_tree_loop fs odb' obj' patch)"

text \<open>
  \<open>update_tree(oid, patch_file, add, modify, move, copy, remove, test)\<close>, lines 457 to
  496, on the store that \<open>get_odb()\<close> returned.
\<close>

definition update_tree ::
  "(pydict \<Rightarrow> oid) \<Rightarrow> local_fs \<Rightarrow> odb \<Rightarrow> string \<Rightarrow> string
     \<Rightarrow> (patch_path \<times> application list) option
     \<Rightarrow> item list \<Rightarrow> item list \<Rightarrow> item list \<Rightarrow> item list \<Rightarrow> item list \<Rightarrow> item list
     \<Rightarrow> message list \<times> error option \<times> odb \<times> tree option" where
  "update_tree H fs odb stdin oid patch_file add modify move copy remove test =
     (case from_shortoid odb stdin oid of
        Inl (out, e) \<Rightarrow> (out, Some e, odb, None)
      | Inr (stdin1, h) \<Rightarrow>
     (case load odb h of
        Inl e \<Rightarrow> ([], Some e, odb, None)
      | Inr LoadedFile \<Rightarrow> ([], Some AssertionError, odb, None)
      | Inr (LoadedTree obj) \<Rightarrow>
     (case process_patch patch_file
             [(''add'', add), (''remove'', remove), (''modify'', modify),
              (''copy'', copy), (''move'', move), (''test'', test)] of
        Inl e \<Rightarrow> ([], Some e, odb, Some obj)
      | Inr patch \<Rightarrow>
     (case update_tree_loop fs odb obj patch of
        (out, Some e, odb1, obj1) \<Rightarrow> (out, Some e, odb1, Some obj1)
      | (out, None, odb1, obj1) \<Rightarrow>
     (let obj2 = tree_digest H obj1 in
      case odb_add_tree odb1 obj2 of
        Inl e \<Rightarrow> (out @ [ShowTree (dict obj2) (hash_info obj2)], Some e, odb1, Some obj2)
      | Inr odb2 \<Rightarrow>
          (out @ [ShowTree (dict obj2) (hash_info obj2)], None, odb2, Some obj2))))))"

subsection \<open>Fresh and stale digests\<close>

text \<open>
  The digest of a tree is fresh when \<open>hash_info\<close> is the digest of the entries the tree
  has now and the serialised file holds those entries; otherwise it is stale. A store
  keeps its trees by digest when every tree object in it lies under the digest of its own
  entries, which is what adding only fresh trees maintains.
\<close>

definition digest_fresh :: "(pydict \<Rightarrow> oid) \<Rightarrow> tree \<Rightarrow> bool" where
  "digest_fresh H t = (hash_info t = Some (H (dict t)) \<and> fs_path t = Some (dict t))"

definition trees_by_digest :: "(pydict \<Rightarrow> oid) \<Rightarrow> odb \<Rightarrow> bool" where
  "trees_by_digest H odb =
     list_all (\<lambda>(h, x). case x of HashFile \<Rightarrow> True | TreeObj d \<Rightarrow> h = H d) odb"

section \<open>Properties\<close>

subsection \<open>Dictionary lemmas\<close>

lemma has_key_map_of: "has_key d k \<longleftrightarrow> map_of d k \<noteq> None"
  by (simp add: has_key_def map_of_eq_None_iff)

lemma has_key_update: "has_key (AList.update k v d) k' \<longleftrightarrow> k' = k \<or> has_key d k'"
  by (auto simp: has_key_map_of update_conv')

lemma has_key_delete: "has_key (AList.delete k d) k' \<longleftrightarrow> k' \<noteq> k \<and> has_key d k'"
  by (auto simp: has_key_map_of delete_conv')

subsection \<open>Single operations\<close>

text \<open>
  C5. On the tree \<open>{"a/b": d1}\<close> the record \<open>{"op": "move", "path": "a/b", "to": "a/c"}\<close>
  gives the tree \<open>{"a/c": d1}\<close>: the entry keeps its metadata and digest under the new
  key and the old key is gone. A following \<open>{"op": "test", "path": "a/b"}\<close> raises
  FileNotFoundError.
\<close>

theorem move_scenario:
  "apply_op fs odb \<lparr>dict = [([''a'', ''b''], (m, d1))], trie = c, hash_info = h, fs_path = p\<rparr>
     [(''op'', ''move''), (''path'', ''a/b''), (''to'', ''a/c'')]
   = Inr (odb, \<lparr>dict = [([''a'', ''c''], (m, d1))], trie = None, hash_info = None, fs_path = p\<rparr>)
   \<and> apply_op fs odb \<lparr>dict = [([''a'', ''c''], (m, d1))], trie = None, hash_info = None, fs_path = p\<rparr>
     [(''op'', ''test''), (''path'', ''a/b'')]
   = Inl (FileNotFoundError ''a/b'')"
  by (simp add: apply_op_def has_key_def tree_get_def tree_add_def dict_pop_def)

text \<open>
  C10. When the tree contains the key \<open>k\<close>, a move whose \<open>path\<close> and \<open>to\<close> both name
  \<open>k\<close> succeeds and leaves a tree that does not contain \<open>k\<close>; every other key keeps its
  entry. The entry is written back under \<open>k\<close> by \<open>Tree.add\<close> and then popped.
\<close>

theorem move_onto_itself_removes:
  assumes "map_of application ''op'' = Some ''move''"
    and "map_of application ''path'' = Some path"
    and "map_of application ''to'' = Some to"
    and "split CHR ''/'' path = k" and "split CHR ''/'' to = k"
    and "has_key (dict obj) k"
  shows "\<exists>obj'. apply_op fs odb obj application = Inr (odb, obj')
           \<and> \<not> has_key (dict obj') k
           \<and> (\<forall>k'. k' \<noteq> k \<longrightarrow> map_of (dict obj') k' = map_of (dict obj) k')"
proof -
  from assms(6) obtain m h where e: "map_of (dict obj) k = Some (m, h)"
    by (auto simp: has_key_map_of)
  have "apply_op fs odb obj application
      = Inr (odb, (tree_add obj k m h)\<lparr>dict := AList.delete k (dict (tree_add obj k m h))\<rparr>)"
    using assms e
    by (simp add: apply_op_def tree_get_def dict_pop_def tree_add_def has_key_update)
  then show ?thesis
    by (simp add: tree_add_def has_key_delete delete_conv' update_conv')
qed

theorem move_onto_itself_removes_witness:
  "\<exists>obj'. apply_op [] []
       \<lparr>dict = [([''x''], (''m1'', ''d1'')), ([''y''], (''m2'', ''d2''))],
        trie = None, hash_info = Some ''t'', fs_path = None\<rparr>
       [(''op'', ''move''), (''path'', ''x''), (''to'', ''x'')] = Inr ([], obj')
     \<and> \<not> has_key (dict obj') [''x'']
     \<and> map_of (dict obj') [''y''] = Some (''m2'', ''d2'')"
  using move_onto_itself_removes [of "[(''op'', ''move''), (''path'', ''x''), (''to'', ''x'')]"
      "''x''" "''x''" "[''x'']"
      "\<lparr>dict = [([''x''], (''m1'', ''d1'')), ([''y''], (''m2'', ''d2''))],
        trie = None, hash_info = Some ''t'', fs_path = None\<rparr>" "[]" "[]"]
  by (fastforce simp: has_key_def)


subsection \<open>The operations that read the key named by \<open>path\<close>\<close>

lemma path_op_absent:
  assumes "map_of application ''op'' = Some op"
    and "op \<in> {''remove'', ''move'', ''copy'', ''test''}"
    and "map_of application ''path'' = Some path"
    and "\<not> has_key (dict obj) (split CHR ''/'' path)"
  shows "apply_op fs odb obj application = Inl (FileNotFoundError path)"
  using assms by (auto simp: apply_op_def)

lemma test_op_present:
  assumes "map_of application ''op'' = Some ''test''"
    and "map_of application ''path'' = Some path"
    and "has_key (dict obj) (split CHR ''/'' path)"
  shows "apply_op fs odb obj application = Inr (odb, obj)"
  using assms by (simp add: apply_op_def)

lemma remove_op_present:
  assumes "map_of application ''op'' = Some ''remove''"
    and "map_of application ''path'' = Some path"
    and "has_key (dict obj) (split CHR ''/'' path)"
  shows "apply_op fs odb obj application =
           Inr (odb, obj\<lparr>dict := AList.delete (split CHR ''/'' path) (dict obj), trie := None\<rparr>)"
  using assms by (simp add: apply_op_def dict_pop_def)

lemma copy_op_present:
  assumes "map_of application ''op'' = Some ''copy''"
    and "map_of application ''path'' = Some path"
    and "map_of application ''to'' = Some to"
    and "map_of (dict obj) (split CHR ''/'' path) = Some (m, h)"
  shows "apply_op fs odb obj application =
           Inr (odb, obj\<lparr>dict := AList.update (split CHR ''/'' to) (m, h) (dict obj),
                        trie := None, hash_info := None\<rparr>)"
  using assms by (simp add: apply_op_def tree_get_def tree_add_def has_key_map_of)

lemma move_op_present:
  assumes "map_of application ''op'' = Some ''move''"
    and "map_of application ''path'' = Some path"
    and "map_of application ''to'' = Some to"
    and "map_of (dict obj) (split CHR ''/'' path) = Some (m, h)"
  shows "apply_op fs odb obj application =
           Inr (odb, obj\<lparr>dict := AList.delete (split CHR ''/'' path)
                                  (AList.update (split CHR ''/'' to) (m, h) (dict obj)),
                        trie := None, hash_info := None\<rparr>)"
proof -
  have "has_key (dict obj) (split CHR ''/'' path)"
    using assms(4) by (simp add: has_key_map_of)
  with assms show ?thesis
    by (simp add: apply_op_def tree_get_def tree_add_def dict_pop_def has_key_update)
qed

text \<open>
  A move between two different keys re-keys the entry: afterwards the tree maps \<open>to\<close> to
  the entry, has nothing at \<open>path\<close>, and is unchanged elsewhere.
\<close>

lemma move_op_other_key:
  assumes "split CHR ''/'' to \<noteq> split CHR ''/'' path"
  shows "map_of (AList.delete (split CHR ''/'' path)
                   (AList.update (split CHR ''/'' to) (m, h) d)) =
         ((map_of d)(split CHR ''/'' path := None))(split CHR ''/'' to \<mapsto> (m, h))"
  using assms by (auto simp: delete_conv' update_conv' fun_eq_iff)

text \<open>
  C3. For remove, move, copy and test an absent \<open>path\<close> key is FileNotFoundError, and on
  a present key remove deletes, copy duplicates and test changes nothing (the lemmas
  above). A move is to put the entry under \<open>to\<close>; on the tree \<open>{"a": d}\<close> the record
  \<open>{"op": "move", "path": "a", "to": "a"}\<close> returns without error and leaves the empty
  tree: the entry is under no key at all.
\<close>

theorem move_same_key_loses_entry:
  "apply_op fs odb \<lparr>dict = [([''a''], (m, d))], trie = c, hash_info = h, fs_path = p\<rparr>
     [(''op'', ''move''), (''path'', ''a''), (''to'', ''a'')]
   = Inr (odb, \<lparr>dict = [], trie = None, hash_info = None, fs_path = p\<rparr>)"
  by (simp add: apply_op_def has_key_def tree_get_def tree_add_def dict_pop_def)

subsection \<open>The operations that take external content\<close>

text \<open>
  C2. For a record with its \<open>path\<close> and \<open>to\<close> fields: an add whose target key is in the
  tree raises FileExistsError; otherwise, with the external file built to metadata \<open>m\<close>
  and digest \<open>h\<close>, the digest is added to the store and the entry \<open>(m, h)\<close> is put under
  the target key. A modify does the same insertion whether or not the key is occupied and
  never raises FileExistsError. On the empty tree, add of \<open>foo\<close> with content of digest
  \<open>d1\<close> gives the tree \<open>{"foo": d1}\<close>, and the same add on that tree raises
  FileExistsError.
\<close>

theorem add_modify_op:
  assumes "map_of application ''path'' = Some path"
    and "map_of application ''to'' = Some to"
  shows
    "(map_of application ''op'' = Some ''add'' \<longrightarrow>
        (if has_key (dict obj) (split CHR ''/'' to)
         then apply_op fs odb obj application = Inl (FileExistsError path)
         else (\<forall>m h. build fs path = Inr (m, h) \<longrightarrow>
                 apply_op fs odb obj application =
                   Inr (odb_add odb h HashFile,
                        obj\<lparr>dict := AList.update (split CHR ''/'' to) (m, h) (dict obj),
                            trie := None, hash_info := None\<rparr>))))
     \<and> (map_of application ''op'' = Some ''modify'' \<longrightarrow>
        (\<forall>m h. build fs path = Inr (m, h) \<longrightarrow>
                 apply_op fs odb obj application =
                   Inr (odb_add odb h HashFile,
                        obj\<lparr>dict := AList.update (split CHR ''/'' to) (m, h) (dict obj),
                            trie := None, hash_info := None\<rparr>))
        \<and> (\<forall>p. apply_op fs odb obj application \<noteq> Inl (FileExistsError p)))
     \<and> apply_op [(''foo'', (m1, d1))] []
          \<lparr>dict = [], trie = None, hash_info = None, fs_path = None\<rparr>
          [(''op'', ''add''), (''path'', ''foo''), (''to'', ''foo'')]
        = Inr ([(d1, HashFile)],
               \<lparr>dict = [([''foo''], (m1, d1))], trie = None, hash_info = None, fs_path = None\<rparr>)
     \<and> apply_op [(''foo'', (m1, d1))] [(d1, HashFile)]
          \<lparr>dict = [([''foo''], (m1, d1))], trie = None, hash_info = None, fs_path = None\<rparr>
          [(''op'', ''add''), (''path'', ''foo''), (''to'', ''foo'')]
        = Inl (FileExistsError ''foo'')"
  using assms
  by (auto simp: apply_op_def tree_add_def build_def has_key_def odb_add_def split: option.splits)

theorem add_modify_op_witness:
  "apply_op [(''f'', (''m'', ''d1''))] []
      \<lparr>dict = [([''foo''], (''m0'', ''d0''))], trie = None, hash_info = Some ''t'', fs_path = None\<rparr>
      [(''op'', ''modify''), (''path'', ''f''), (''to'', ''foo'')]
    = Inr ([(''d1'', HashFile)],
           \<lparr>dict = [([''foo''], (''m'', ''d1''))], trie = None, hash_info = None, fs_path = None\<rparr>)
   \<and> apply_op [(''f'', (''m'', ''d1''))] []
      \<lparr>dict = [([''foo''], (''m0'', ''d0''))], trie = None, hash_info = Some ''t'', fs_path = None\<rparr>
      [(''op'', ''add''), (''path'', ''f''), (''to'', ''foo'')]
    = Inl (FileExistsError ''f'')
   \<and> apply_op [(''f'', (''m'', ''d1''))] []
      \<lparr>dict = [([''foo''], (''m0'', ''d0''))], trie = None, hash_info = Some ''t'', fs_path = None\<rparr>
      [(''op'', ''add''), (''path'', ''f''), (''to'', ''bar'')]
    = Inr ([(''d1'', HashFile)],
           \<lparr>dict = [([''foo''], (''m0'', ''d0'')), ([''bar''], (''m'', ''d1''))],
            trie = None, hash_info = None, fs_path = None\<rparr>)"
  using
    add_modify_op [of "[(''op'', ''modify''), (''path'', ''f''), (''to'', ''foo'')]" "''f''" "''foo''"
      "\<lparr>dict = [([''foo''], (''m0'', ''d0''))], trie = None, hash_info = Some ''t'', fs_path = None\<rparr>"
      "[(''f'', (''m'', ''d1''))]" "[]"]
    add_modify_op [of "[(''op'', ''add''), (''path'', ''f''), (''to'', ''foo'')]" "''f''" "''foo''"
      "\<lparr>dict = [([''foo''], (''m0'', ''d0''))], trie = None, hash_info = Some ''t'', fs_path = None\<rparr>"
      "[(''f'', (''m'', ''d1''))]" "[]"]
    add_modify_op [of "[(''op'', ''add''), (''path'', ''f''), (''to'', ''bar'')]" "''f''" "''bar''"
      "\<lparr>dict = [([''foo''], (''m0'', ''d0''))], trie = None, hash_info = Some ''t'', fs_path = None\<rparr>"
      "[(''f'', (''m'', ''d1''))]" "[]"]
  by (simp add: build_def has_key_def odb_add_def)

subsection \<open>The cached index\<close>

text \<open>
  C8. A successful add, remove or move leaves the tree with no cached trie, so the next
  query of the index rebuilds it from the entries the tree then has: it cannot show an
  entry of a removed or re-keyed path.
\<close>

theorem structural_mutation_invalidates_trie:
  assumes "map_of application ''op'' = Some op"
    and "op \<in> {''add'', ''remove'', ''move''}"
    and "apply_op fs odb obj application = Inr (odb', obj')"
  shows "trie obj' = None \<and> fst (tree_trie obj') = dict obj'"
  using assms
  by (auto simp: apply_op_def tree_add_def tree_trie_def dict_pop_def tree_get_def Let_def
      split: option.splits if_splits sum.splits prod.splits)

theorem structural_mutation_invalidates_trie_witness:
  "apply_op [] []
      \<lparr>dict = [([''a''], (''m'', ''d'')), ([''b''], (''m'', ''d''))],
       trie = Some [([''a''], (''m'', ''d'')), ([''b''], (''m'', ''d''))],
       hash_info = Some ''t'', fs_path = None\<rparr>
      [(''op'', ''move''), (''path'', ''a''), (''to'', ''c'')]
    = Inr ([], \<lparr>dict = [([''b''], (''m'', ''d'')), ([''c''], (''m'', ''d''))], trie = None,
                hash_info = None, fs_path = None\<rparr>)
   \<and> fst (tree_trie \<lparr>dict = [([''b''], (''m'', ''d'')), ([''c''], (''m'', ''d''))], trie = None,
                hash_info = None, fs_path = None\<rparr>)
      = [([''b''], (''m'', ''d'')), ([''c''], (''m'', ''d''))]"
proof -
  have run: "apply_op [] []
      \<lparr>dict = [([''a''], (''m'', ''d'')), ([''b''], (''m'', ''d''))],
       trie = Some [([''a''], (''m'', ''d'')), ([''b''], (''m'', ''d''))],
       hash_info = Some ''t'', fs_path = None\<rparr>
      [(''op'', ''move''), (''path'', ''a''), (''to'', ''c'')]
    = Inr ([], \<lparr>dict = [([''b''], (''m'', ''d'')), ([''c''], (''m'', ''d''))], trie = None,
                hash_info = None, fs_path = None\<rparr>)"
    by (simp add: apply_op_def has_key_def tree_get_def tree_add_def dict_pop_def)
  have op: "map_of [(''op'', ''move''), (''path'', ''a''), (''to'', ''c'')] ''op'' = Some ''move''"
    by simp
  have kind: "''move'' \<in> {''add'', ''remove'', ''move''}"
    by simp
  from structural_mutation_invalidates_trie [OF op kind run] run show ?thesis
    by simp
qed


subsection \<open>A batch of operations\<close>






subsection \<open>Reading a patch file\<close>

lemma resolve_paths_unchanged:
  "resolve_paths f patch rest = Inr r \<Longrightarrow> r = patch"
  by (induction rest) (auto simp: Let_def split: patch_path.splits if_splits)

lemma resolve_paths_raises:
  "appl \<in> set rest \<Longrightarrow> map_of appl ''op'' = Some op \<Longrightarrow> op \<in> {''add'', ''modify''} \<Longrightarrow>
   map_of appl ''path'' = Some path \<Longrightarrow> path \<noteq> [] \<Longrightarrow>
     \<exists>e. resolve_paths f patch rest = Inl e"
  by (induction rest) (auto simp: Let_def split: patch_path.splits)

text \<open>
  C6. The \<open>path\<close> of every add and modify record of a patch file is to be resolved
  against the directory of the patch file, without error. On the patch file
  \<open>[{"op": "add", "path": "foo", "to": "foo"}]\<close> the call \<open>process_patch\<close> raises instead:
  AttributeError when the file name is the \<open>str\<close> that click passes, TypeError when it is
  a path object. No path is ever resolved (\<open>resolve_paths_unchanged\<close>), and every patch
  file with an add or modify record of non-empty path raises (\<open>resolve_paths_raises\<close>).
\<close>

theorem process_patch_add_record_raises:
  "process_patch
     (Some (StrPath ''dir/patch.json'', [ [(''op'', ''add''), (''path'', ''foo''), (''to'', ''foo'')]]))
     [] = Inl AttributeError
   \<and> process_patch
     (Some (PurePath ''dir/patch.json'', [ [(''op'', ''add''), (''path'', ''foo''), (''to'', ''foo'')]]))
     [] = Inl TypeError"
  by (simp add: process_patch_def)


subsection \<open>Resolving a digest prefix\<close>

lemma filter_distinct_cases:
  assumes "distinct xs"
  shows "(filter P xs = [] \<longleftrightarrow> {x \<in> set xs. P x} = {})"
    and "(\<exists>a b r. filter P xs = a # b # r) \<longleftrightarrow> 1 < card {x \<in> set xs. P x}"
    and "filter P xs = [h] \<longleftrightarrow> {x \<in> set xs. P x} = {h}"
proof -
  let ?L = "filter P xs"
  have d: "distinct ?L" using assms by simp
  have s: "set ?L = {x \<in> set xs. P x}" by auto
  have c: "card {x \<in> set xs. P x} = length ?L"
    using distinct_card [OF d] s by simp
  show "(?L = [] \<longleftrightarrow> {x \<in> set xs. P x} = {})"
    using s by (metis (no_types, lifting) set_empty)
  show "(\<exists>a b r. ?L = a # b # r) \<longleftrightarrow> 1 < card {x \<in> set xs. P x}"
    unfolding c by (cases ?L rule: list.exhaust; cases "tl ?L"; auto)
  show "?L = [h] \<longleftrightarrow> {x \<in> set xs. P x} = {h}"
  proof
    assume "?L = [h]" with s show "{x \<in> set xs. P x} = {h}" by (metis list.simps(15) empty_set)
  next
    assume e: "{x \<in> set xs. P x} = {h}"
    with c have "length ?L = 1" by simp
    then obtain y where y: "?L = [y]" by (cases ?L) auto
    with s e show "?L = [h]" by (metis list.simps(15) empty_set singleton_insert_inj_eq')
  qed
qed

lemma exists_prefix_cases:
  assumes "distinct (map fst odb)"
  shows "{h \<in> set (map fst odb). startswith h q} = {} \<Longrightarrow> exists_prefix odb q = Inl (KeyError [q])"
    and "1 < card {h \<in> set (map fst odb). startswith h q} \<Longrightarrow> exists_prefix odb q = Inl (ValueError q)"
    and "{h \<in> set (map fst odb). startswith h q} = {h} \<Longrightarrow> exists_prefix odb q = Inr h"
proof -
  note f = filter_distinct_cases [OF assms, of "\<lambda>h. startswith h q"]
  show "{h \<in> set (map fst odb). startswith h q} = {} \<Longrightarrow> exists_prefix odb q = Inl (KeyError [q])"
    using f(1) by (simp add: exists_prefix_def)
  show "1 < card {h \<in> set (map fst odb). startswith h q} \<Longrightarrow> exists_prefix odb q = Inl (ValueError q)"
    using f(2) by (auto simp: exists_prefix_def)
  show "{h \<in> set (map fst odb). startswith h q} = {h} \<Longrightarrow> exists_prefix odb q = Inr h"
    using f(3) [of h] by (simp add: exists_prefix_def)
qed

text \<open>
  C7. In a store whose digests are listed once each, let \<open>q\<close> be the prefix given (read
  from the standard input and stripped when the argument is \<open>-\<close>) and \<open>M\<close> the stored
  digests that start with \<open>q\<close>. If \<open>M\<close> is empty \<open>from_shortoid\<close> echoes "Not a valid" and
  exits with code 1; if \<open>M\<close> has more than one element it echoes "Ambiguous" and exits with
  code 1; if \<open>M\<close> is one digest it returns that digest. When it fails, \<open>update_tree\<close> and
  \<open>merge_tree\<close> end with the same exit and leave the store as it was.
\<close>

theorem from_shortoid_resolves:
  assumes "distinct (map fst odb)"
  shows "let q = (if oid \<noteq> ''-'' then oid else strip stdin);
             rest = (if oid \<noteq> ''-'' then stdin else []);
             M = {h \<in> set (map fst odb). startswith h q}
         in (M = {} \<longrightarrow> from_shortoid odb stdin oid = Inl ([NotAValidOid q], Exit 1))
          \<and> (1 < card M \<longrightarrow> from_shortoid odb stdin oid = Inl ([AmbiguousOid q], Exit 1))
          \<and> (\<forall>h. M = {h} \<longrightarrow> from_shortoid odb stdin oid = Inr (rest, h))
          \<and> (\<forall>out e. from_shortoid odb stdin oid = Inl (out, e) \<longrightarrow>
                update_tree H fs odb stdin oid patch_file a m mv c r t = (out, Some e, odb, None)
              \<and> merge_tree H odb stdin oid oid2 force = (out, Some e, odb, None))"
  using exists_prefix_cases [OF assms]
  by (auto simp: from_shortoid_def update_tree_def merge_tree_def Let_def)

theorem from_shortoid_resolves_witness:
  "from_shortoid [(''abc1'', HashFile), (''abd2'', HashFile)] '' abd\<newline>'' ''abc'' = Inr ('' abd\<newline>'', ''abc1'')
   \<and> from_shortoid [(''abc1'', HashFile), (''abd2'', HashFile)] '' abd\<newline>'' ''-'' = Inr ([], ''abd2'')
   \<and> from_shortoid [(''abc1'', HashFile), (''abd2'', HashFile)] [] ''ab'' = Inl ([AmbiguousOid ''ab''], Exit 1)
   \<and> from_shortoid [(''abc1'', HashFile), (''abd2'', HashFile)] [] ''x'' = Inl ([NotAValidOid ''x''], Exit 1)"
proof -
  let ?odb = "[(''abc1'', HashFile), (''abd2'', HashFile)]"
  have d: "distinct (map fst ?odb)" by simp
  have s: "strip '' abd\<newline>'' = ''abd''" by (simp add: strip_def isspace_def)
  have m1: "{h. (h = ''abc1'' \<or> h = ''abd2'') \<and> startswith h ''abc''} = {''abc1''}"
    by (auto simp: startswith_def)
  have m2: "{h. (h = ''abc1'' \<or> h = ''abd2'') \<and> startswith h ''abd''} = {''abd2''}"
    by (auto simp: startswith_def)
  have m3: "{h. (h = ''abc1'' \<or> h = ''abd2'') \<and> startswith h ''ab''} = {''abc1'', ''abd2''}"
    by (auto simp: startswith_def)
  have m4: "\<forall>x. x \<noteq> ''abc1'' \<and> x \<noteq> ''abd2'' \<or> \<not> startswith x ''x''"
    by (auto simp: startswith_def)
  show ?thesis
    using from_shortoid_resolves [OF d, of "''abc''" "'' abd\<newline>''" "\<lambda>_. []" "[]" None "[]" "[]" "[]" "[]" "[]" "[]" "[]" False]
      from_shortoid_resolves [OF d, of "''-''" "'' abd\<newline>''" "\<lambda>_. []" "[]" None "[]" "[]" "[]" "[]" "[]" "[]" "[]" False]
      from_shortoid_resolves [OF d, of "''ab''" "[]" "\<lambda>_. []" "[]" None "[]" "[]" "[]" "[]" "[]" "[]" "[]" False]
      from_shortoid_resolves [OF d, of "''x''" "[]" "\<lambda>_. []" "[]" None "[]" "[]" "[]" "[]" "[]" "[]" "[]" False]
    by (simp add: Let_def s m1 m2 m3 m4)
qed


subsection \<open>Persisting a tree\<close>

lemma persist_fresh:
  "odb_add_tree odb (tree_digest H t) = Inr (odb_add odb (H (dict t)) (TreeObj (dict t)))"
  by (simp add: odb_add_tree_def tree_digest_def)

lemma tree_digest_sel:
  "dict (tree_digest H t) = dict t" "hash_info (tree_digest H t) = Some (H (dict t))"
  by (simp_all add: tree_digest_def)

lemma merge_tree_outcome:
  "merge_tree H odb stdin oid1 oid2 force = (out, err, odb', res) \<Longrightarrow>
     (err \<noteq> None \<and> odb' = odb \<and> res = None)
     \<or> (\<exists>merged. err = None \<and> res = Some (tree_digest H merged)
           \<and> odb' = odb_add odb (H (dict merged)) (TreeObj (dict merged)))"
  by (auto simp: merge_tree_def persist_fresh Let_def
      split: sum.splits prod.splits loaded.splits option.splits)

lemma trees_by_digest_add_file:
  "trees_by_digest H odb \<Longrightarrow> trees_by_digest H (odb_add odb h HashFile)"
  by (simp add: trees_by_digest_def odb_add_def)

lemma trees_by_digest_add_tree:
  "trees_by_digest H odb \<Longrightarrow> trees_by_digest H (odb_add odb (H d) (TreeObj d))"
  by (simp add: trees_by_digest_def odb_add_def)

lemma apply_op_trees_by_digest:
  "apply_op fs odb obj a = Inr (odb', obj') \<Longrightarrow> trees_by_digest H odb \<Longrightarrow>
     trees_by_digest H odb'"
  by (auto simp: apply_op_def Let_def trees_by_digest_add_file
      split: option.splits if_splits sum.splits prod.splits)

lemma loop_trees_by_digest:
  "update_tree_loop fs odb obj patch = (out, err, odb', obj') \<Longrightarrow> trees_by_digest H odb \<Longrightarrow>
     trees_by_digest H odb'"
proof (induction patch arbitrary: odb obj)
  case Nil
  then show ?case by simp
next
  case (Cons a patch)
  show ?case
  proof (cases "apply_op fs odb obj a")
    case (Inl exc)
    with Cons.prems show ?thesis by (cases exc) auto
  next
    case (Inr s)
    obtain odb1 obj1 where s: "s = (odb1, obj1)" by (cases s)
    from Inr s Cons.prems(1)
    have "update_tree_loop fs odb1 obj1 patch = (out, err, odb', obj')" by simp
    moreover have "trees_by_digest H odb1"
      using apply_op_trees_by_digest Inr s Cons.prems(2) by blast
    ultimately show ?thesis by (rule Cons.IH)
  qed
qed

lemma has_key_odb_add: "has_key (odb_add odb h x) h"
  by (auto simp: odb_add_def has_key_def)

lemma update_tree_persists_fresh:
  assumes "update_tree H fs odb stdin oid patch_file a m mv c r t = (out, err, odb', res)"
  shows "(err = None \<longrightarrow> (\<exists>obj. res = Some obj \<and> digest_fresh H obj \<and> has_key odb' (H (dict obj))))
       \<and> (trees_by_digest H odb \<longrightarrow> trees_by_digest H odb')"
proof (cases "from_shortoid odb stdin oid")
  case (Inl f)
  with assms show ?thesis by (auto simp: update_tree_def split: prod.splits)
next
  case (Inr p)
  obtain stdin1 h where p: "p = (stdin1, h)" by (cases p)
  show ?thesis
  proof (cases "load odb h")
    case (Inl e)
    with assms Inr p show ?thesis by (auto simp: update_tree_def)
  next
    case ld: (Inr l)
    show ?thesis
    proof (cases l)
      case LoadedFile
      with assms Inr p ld show ?thesis by (auto simp: update_tree_def)
    next
      case (LoadedTree obj0)
      show ?thesis
      proof (cases "process_patch patch_file
             [(''add'', a), (''remove'', r), (''modify'', m),
              (''copy'', c), (''move'', mv), (''test'', t)]")
        case (Inl e)
        with assms Inr p ld LoadedTree show ?thesis by (auto simp: update_tree_def)
      next
        case pp: (Inr patch)
        obtain out1 err1 odb1 obj1 where
          lp: "update_tree_loop fs odb obj0 patch = (out1, err1, odb1, obj1)"
          by (cases "update_tree_loop fs odb obj0 patch") auto
        have inv: "trees_by_digest H odb \<longrightarrow> trees_by_digest H odb1"
          using loop_trees_by_digest [OF lp] by blast
        show ?thesis
        proof (cases err1)
          case (Some e)
          with assms Inr p ld LoadedTree pp lp inv show ?thesis
            by (auto simp: update_tree_def)
        next
          case None
          with assms Inr p ld LoadedTree pp lp
          have "err = None" "res = Some (tree_digest H obj1)"
            "odb' = odb_add odb1 (H (dict obj1)) (TreeObj (dict obj1))"
            by (auto simp: update_tree_def persist_fresh Let_def)
          with inv show ?thesis
            by (auto simp: digest_fresh_def tree_digest_def has_key_odb_add
                trees_by_digest_add_tree)
        qed
      qed
    qed
  qed
qed


lemma merge_tree_persists_fresh:
  assumes "merge_tree H odb stdin oid1 oid2 force = (out, err, odb', res)"
  shows "(err = None \<longrightarrow> (\<exists>obj. res = Some obj \<and> digest_fresh H obj \<and> has_key odb' (H (dict obj))))
       \<and> (trees_by_digest H odb \<longrightarrow> trees_by_digest H odb')"
  using merge_tree_outcome [OF assms]
  by (auto simp: digest_fresh_def tree_digest_def has_key_odb_add trees_by_digest_add_tree)

lemma tree_objects_add_file:
  "filter (\<lambda>p. snd p \<noteq> HashFile) (odb_add odb h HashFile) = filter (\<lambda>p. snd p \<noteq> HashFile) odb"
  by (simp add: odb_add_def)

lemma apply_op_tree_objects:
  "apply_op fs odb obj a = Inr (odb', obj') \<Longrightarrow>
     filter (\<lambda>p. snd p \<noteq> HashFile) odb' = filter (\<lambda>p. snd p \<noteq> HashFile) odb"
  by (auto simp: apply_op_def Let_def tree_objects_add_file
      split: option.splits if_splits sum.splits prod.splits)

lemma loop_tree_objects:
  "update_tree_loop fs odb obj patch = (out, err, odb', obj') \<Longrightarrow>
     filter (\<lambda>p. snd p \<noteq> HashFile) odb' = filter (\<lambda>p. snd p \<noteq> HashFile) odb"
proof (induction patch arbitrary: odb obj)
  case Nil
  then show ?case by simp
next
  case (Cons a patch)
  show ?case
  proof (cases "apply_op fs odb obj a")
    case (Inl exc)
    with Cons.prems show ?thesis by (cases exc) auto
  next
    case (Inr s)
    obtain odb1 obj1 where s: "s = (odb1, obj1)" by (cases s)
    from Inr s Cons.prems
    have "update_tree_loop fs odb1 obj1 patch = (out, err, odb', obj')" by simp
    from Cons.IH [OF this] apply_op_tree_objects [of fs odb obj a odb1 obj1] Inr s
    show ?thesis by simp
  qed
qed

lemma update_tree_completed:
  assumes "from_shortoid odb stdin oid = Inr (stdin1, h)"
    and "load odb h = Inr (LoadedTree obj0)"
    and "process_patch patch_file
           [(''add'', a), (''remove'', r), (''modify'', m),
            (''copy'', c), (''move'', mv), (''test'', t)] = Inr patch"
    and "update_tree_loop fs odb obj0 patch = (out1, None, odb1, obj1)"
  shows "update_tree H fs odb stdin oid patch_file a m mv c r t =
           (out1 @ [ShowTree (dict obj1) (Some (H (dict obj1)))], None,
            odb_add odb1 (H (dict obj1)) (TreeObj (dict obj1)), Some (tree_digest H obj1))"
  using assms by (simp add: update_tree_def persist_fresh tree_digest_sel Let_def)

lemma merge_tree_completed:
  assumes "from_shortoid odb stdin oid1 = Inr (stdin1, h1)"
    and "from_shortoid odb stdin1 oid2 = Inr (stdin2, h2)"
    and "load odb h1 = Inr (LoadedTree A)"
    and "load odb h2 = Inr (LoadedTree B)"
    and "(if \<not> force then detect_conflicts (diff (Some A) (Some B) odb) else None) = None"
    and "merge odb None (hash_info A) (hash_info B) = Inr M"
  shows "merge_tree H odb stdin oid1 oid2 force =
           ([ShowTree (dict M) (Some (H (dict M)))], None,
            odb_add odb (H (dict M)) (TreeObj (dict M)), Some (tree_digest H M))"
  using assms by (simp add: merge_tree_def persist_fresh tree_digest_sel Let_def)

lemma digest_fresh_tree_digest: "digest_fresh H (tree_digest H t)"
  by (simp add: digest_fresh_def tree_digest_def)

lemma update_tree_outcome:
  assumes "update_tree H fs odb stdin oid patch_file a m mv c r t = (out, err, odb', res)"
  shows "(err = None \<and> (\<exists>obj0 patch out1 odb1 obj1.
             update_tree_loop fs odb obj0 patch = (out1, None, odb1, obj1)
             \<and> res = Some (tree_digest H obj1)
             \<and> odb' = odb_add odb1 (H (dict obj1)) (TreeObj (dict obj1))))
       \<or> (err \<noteq> None
            \<and> filter (\<lambda>p. snd p \<noteq> HashFile) odb' = filter (\<lambda>p. snd p \<noteq> HashFile) odb)"
proof (cases "from_shortoid odb stdin oid")
  case (Inl f)
  with assms show ?thesis by (auto simp: update_tree_def split: prod.splits)
next
  case (Inr p)
  obtain stdin1 h where p: "p = (stdin1, h)" by (cases p)
  show ?thesis
  proof (cases "load odb h")
    case (Inl e)
    with assms Inr p show ?thesis by (auto simp: update_tree_def)
  next
    case ld: (Inr l)
    show ?thesis
    proof (cases l)
      case LoadedFile
      with assms Inr p ld show ?thesis by (auto simp: update_tree_def)
    next
      case (LoadedTree obj0)
      show ?thesis
      proof (cases "process_patch patch_file
             [(''add'', a), (''remove'', r), (''modify'', m),
              (''copy'', c), (''move'', mv), (''test'', t)]")
        case (Inl e)
        with assms Inr p ld LoadedTree show ?thesis by (auto simp: update_tree_def)
      next
        case pp: (Inr patch)
        obtain out1 err1 odb1 obj1 where
          lp: "update_tree_loop fs odb obj0 patch = (out1, err1, odb1, obj1)"
          by (cases "update_tree_loop fs odb obj0 patch") auto
        show ?thesis
        proof (cases err1)
          case (Some e)
          with assms Inr p ld LoadedTree pp lp loop_tree_objects [OF lp] show ?thesis
            by (auto simp: update_tree_def)
        next
          case None
          from update_tree_completed [OF Inr [unfolded p] ld [unfolded LoadedTree] pp
              lp [unfolded None], of H] assms
          have "err = None" "res = Some (tree_digest H obj1)"
            "odb' = odb_add odb1 (H (dict obj1)) (TreeObj (dict obj1))"
            by simp_all
          with lp None show ?thesis by blast
        qed
      qed
    qed
  qed
qed

text \<open>
  C9. Both flows that mutate a tree compute the digest after the last mutation and add
  the tree to the store only afterwards. When the loop of \<open>update_tree\<close> completes with
  the tree \<open>obj1\<close>, the command ends with \<open>tree_digest H obj1\<close>, whose digest is fresh, and
  the store gets the entries of \<open>obj1\<close> under the digest \<open>H (dict obj1)\<close> of those entries.
  When \<open>merge_tree\<close> passes its gate and \<open>merge\<close> gives the tree \<open>M\<close>, the command ends
  with \<open>tree_digest H M\<close> and the store gets the entries of \<open>M\<close> under \<open>H (dict M)\<close>.
  Every successful run has this form; a failed run adds no tree object to the store; and
  a store that keeps its trees by digest still does so after either command.
\<close>

theorem digest_recomputed_before_persist:
  "(from_shortoid odb stdin oid = Inr (stdin1, h)
      \<and> load odb h = Inr (LoadedTree obj0)
      \<and> process_patch patch_file
           [(''add'', a), (''remove'', r), (''modify'', m),
            (''copy'', c), (''move'', mv), (''test'', t)] = Inr patch
      \<and> update_tree_loop fs odb obj0 patch = (out1, None, odb1, obj1) \<longrightarrow>
      update_tree H fs odb stdin oid patch_file a m mv c r t =
        (out1 @ [ShowTree (dict obj1) (Some (H (dict obj1)))], None,
         odb_add odb1 (H (dict obj1)) (TreeObj (dict obj1)), Some (tree_digest H obj1))
      \<and> digest_fresh H (tree_digest H obj1))
   \<and> (from_shortoid odb stdin oid1 = Inr (stdin1', h1)
      \<and> from_shortoid odb stdin1' oid2 = Inr (stdin2', h2)
      \<and> load odb h1 = Inr (LoadedTree A)
      \<and> load odb h2 = Inr (LoadedTree B)
      \<and> (if \<not> force then detect_conflicts (diff (Some A) (Some B) odb) else None) = None
      \<and> merge odb None (hash_info A) (hash_info B) = Inr M \<longrightarrow>
      merge_tree H odb stdin oid1 oid2 force =
        ([ShowTree (dict M) (Some (H (dict M)))], None,
         odb_add odb (H (dict M)) (TreeObj (dict M)), Some (tree_digest H M))
      \<and> digest_fresh H (tree_digest H M))
   \<and> (update_tree H fs odb stdin oid patch_file a m mv c r t = (out, err, odb', res) \<longrightarrow>
      (err = None \<longrightarrow>
         (\<exists>obj0 patch out1 odb1 obj1.
             update_tree_loop fs odb obj0 patch = (out1, None, odb1, obj1)
             \<and> res = Some (tree_digest H obj1)
             \<and> odb' = odb_add odb1 (H (dict obj1)) (TreeObj (dict obj1))))
      \<and> (err \<noteq> None \<longrightarrow>
           filter (\<lambda>p. snd p \<noteq> HashFile) odb' = filter (\<lambda>p. snd p \<noteq> HashFile) odb)
      \<and> (trees_by_digest H odb \<longrightarrow> trees_by_digest H odb'))
   \<and> (merge_tree H odb stdin oid1 oid2 force = (out2, err2, odb2, res2) \<longrightarrow>
      (err2 = None \<longrightarrow>
         (\<exists>merged. res2 = Some (tree_digest H merged)
             \<and> odb2 = odb_add odb (H (dict merged)) (TreeObj (dict merged))))
      \<and> (err2 \<noteq> None \<longrightarrow> odb2 = odb)
      \<and> (trees_by_digest H odb \<longrightarrow> trees_by_digest H odb2))"
proof (intro conjI impI)
  assume "from_shortoid odb stdin oid = Inr (stdin1, h)
      \<and> load odb h = Inr (LoadedTree obj0)
      \<and> process_patch patch_file
           [(''add'', a), (''remove'', r), (''modify'', m),
            (''copy'', c), (''move'', mv), (''test'', t)] = Inr patch
      \<and> update_tree_loop fs odb obj0 patch = (out1, None, odb1, obj1)"
  then show "update_tree H fs odb stdin oid patch_file a m mv c r t =
        (out1 @ [ShowTree (dict obj1) (Some (H (dict obj1)))], None,
         odb_add odb1 (H (dict obj1)) (TreeObj (dict obj1)), Some (tree_digest H obj1))"
    using update_tree_completed by blast
next
  show "digest_fresh H (tree_digest H obj1)" by (rule digest_fresh_tree_digest)
next
  assume "from_shortoid odb stdin oid1 = Inr (stdin1', h1)
      \<and> from_shortoid odb stdin1' oid2 = Inr (stdin2', h2)
      \<and> load odb h1 = Inr (LoadedTree A)
      \<and> load odb h2 = Inr (LoadedTree B)
      \<and> (if \<not> force then detect_conflicts (diff (Some A) (Some B) odb) else None) = None
      \<and> merge odb None (hash_info A) (hash_info B) = Inr M"
  then show "merge_tree H odb stdin oid1 oid2 force =
        ([ShowTree (dict M) (Some (H (dict M)))], None,
         odb_add odb (H (dict M)) (TreeObj (dict M)), Some (tree_digest H M))"
    using merge_tree_completed by blast
next
  show "digest_fresh H (tree_digest H M)" by (rule digest_fresh_tree_digest)
next
  assume u: "update_tree H fs odb stdin oid patch_file a m mv c r t = (out, err, odb', res)"
  from update_tree_outcome [OF u]
  show "err = None \<Longrightarrow> \<exists>obj0 patch out1 odb1 obj1.
             update_tree_loop fs odb obj0 patch = (out1, None, odb1, obj1)
             \<and> res = Some (tree_digest H obj1)
             \<and> odb' = odb_add odb1 (H (dict obj1)) (TreeObj (dict obj1))"
    and "err \<noteq> None \<Longrightarrow>
           filter (\<lambda>p. snd p \<noteq> HashFile) odb' = filter (\<lambda>p. snd p \<noteq> HashFile) odb"
    by auto
  from update_tree_persists_fresh [OF u]
  show "trees_by_digest H odb \<Longrightarrow> trees_by_digest H odb'" by simp
next
  assume g: "merge_tree H odb stdin oid1 oid2 force = (out2, err2, odb2, res2)"
  from merge_tree_outcome [OF g]
  show "err2 = None \<Longrightarrow> \<exists>merged. res2 = Some (tree_digest H merged)
             \<and> odb2 = odb_add odb (H (dict merged)) (TreeObj (dict merged))"
    and "err2 \<noteq> None \<Longrightarrow> odb2 = odb"
    by auto
  from merge_tree_persists_fresh [OF g]
  show "trees_by_digest H odb \<Longrightarrow> trees_by_digest H odb2" by simp
qed


theorem digest_recomputed_before_persist_witness:
  "update_tree (\<lambda>d. if d = [([''x''], (''m'', ''d1'')), ([''y''], (''m'', ''d3''))]
                     then ''ta'' else ''t2'') []
      [(''ta'', TreeObj [([''x''], (''m'', ''d1'')), ([''y''], (''m'', ''d3''))])]
      [] ''ta'' None [] [] [] [] [Item ''x''] []
    = ([ShowTree [([''y''], (''m'', ''d3''))] (Some ''t2'')], None,
       [(''ta'', TreeObj [([''x''], (''m'', ''d1'')), ([''y''], (''m'', ''d3''))]),
        (''t2'', TreeObj [([''y''], (''m'', ''d3''))])],
       Some \<lparr>dict = [([''y''], (''m'', ''d3''))], trie = None, hash_info = Some ''t2'',
             fs_path = Some [([''y''], (''m'', ''d3''))]\<rparr>)
   \<and> merge_tree (\<lambda>d. ''t'')
      [(''ta'', TreeObj [([''x''], (''m'', ''d1''))]),
       (''tb'', TreeObj [([''x''], (''m'', ''d1'')), ([''y''], (''m'', ''d3''))])]
      [] ''ta'' ''tb'' False
    = ([ShowTree [([''x''], (''m'', ''d1'')), ([''y''], (''m'', ''d3''))] (Some ''t'')], None,
       [(''ta'', TreeObj [([''x''], (''m'', ''d1''))]),
        (''tb'', TreeObj [([''x''], (''m'', ''d1'')), ([''y''], (''m'', ''d3''))]),
        (''t'', TreeObj [([''x''], (''m'', ''d1'')), ([''y''], (''m'', ''d3''))])],
       Some \<lparr>dict = [([''x''], (''m'', ''d1'')), ([''y''], (''m'', ''d3''))], trie = None,
             hash_info = Some ''t'',
             fs_path = Some [([''x''], (''m'', ''d1'')), ([''y''], (''m'', ''d3''))]\<rparr>)"
proof -
  let ?xy = "[([''x''], (''m'', ''d1'')), ([''y''], (''m'', ''d3''))]"
  let ?y = "[([''y''], (''m'', ''d3''))]"
  let ?x = "[([''x''], (''m'', ''d1''))]"
  let ?H = "\<lambda>d::pydict. if d = ?xy then ''ta'' else ''t2''"
  let ?odb = "[(''ta'', TreeObj ?xy)]"
  let ?obj0 = "\<lparr>dict = ?xy, trie = None, hash_info = Some ''ta'', fs_path = Some ?xy\<rparr>"
  let ?obj1 = "\<lparr>dict = ?y, trie = None, hash_info = Some ''ta'', fs_path = Some ?xy\<rparr>"
  let ?patch = "[ [(''op'', ''remove''), (''path'', ''x'')] ]"
  have r: "from_shortoid ?odb [] ''ta'' = Inr ([], ''ta'')"
    by (simp add: from_shortoid_def exists_prefix_def startswith_def)
  have l: "load ?odb ''ta'' = Inr (LoadedTree ?obj0)"
    by (simp add: load_def)
  have p: "process_patch None
           [(''add'', []), (''remove'', [Item ''x'']), (''modify'', []),
            (''copy'', []), (''move'', []), (''test'', [])] = Inr ?patch"
    by (simp add: process_patch_def item_record_def)
  have lp: "update_tree_loop [] ?odb ?obj0 ?patch = ([], None, ?odb, ?obj1)"
    by (simp add: apply_op_def has_key_def dict_pop_def Let_def)
  note u = digest_recomputed_before_persist [where H = ?H and fs = "[]" and odb = ?odb
      and stdin = "[]" and oid = "''ta''" and ?stdin1.0 = "[]" and h = "''ta''"
      and ?obj0.0 = ?obj0 and patch_file = None and a = "[]" and r = "[Item ''x'']"
      and m = "[]" and c = "[]" and mv = "[]" and t = "[]" and patch = ?patch
      and ?out1.0 = "[]" and ?odb1.0 = ?odb and ?obj1.0 = ?obj1, THEN conjunct1]
  from u r l p lp
  have first: "update_tree ?H [] ?odb [] ''ta'' None [] [] [] [] [Item ''x''] []
      = ([ShowTree ?y (Some ''t2'')], None, ?odb @ [(''t2'', TreeObj ?y)],
         Some \<lparr>dict = ?y, trie = None, hash_info = Some ''t2'', fs_path = Some ?y\<rparr>)"
    by (simp add: odb_add_def has_key_def tree_digest_def)
  let ?K = "\<lambda>d::pydict. ''t''"
  let ?odbm = "[(''ta'', TreeObj ?x), (''tb'', TreeObj ?xy)]"
  let ?A = "\<lparr>dict = ?x, trie = None, hash_info = Some ''ta'', fs_path = Some ?x\<rparr>"
  let ?B = "\<lparr>dict = ?xy, trie = None, hash_info = Some ''tb'', fs_path = Some ?xy\<rparr>"
  let ?M = "\<lparr>dict = ?xy, trie = None, hash_info = None, fs_path = None\<rparr>"
  have r1: "from_shortoid ?odbm [] ''ta'' = Inr ([], ''ta'')"
    by (simp add: from_shortoid_def exists_prefix_def startswith_def)
  have r2: "from_shortoid ?odbm [] ''tb'' = Inr ([], ''tb'')"
    by (simp add: from_shortoid_def exists_prefix_def startswith_def)
  have l1: "load ?odbm ''ta'' = Inr (LoadedTree ?A)"
    by (simp add: load_def)
  have l2: "load ?odbm ''tb'' = Inr (LoadedTree ?B)"
    by (simp add: load_def)
  have d: "diff (Some ?A) (Some ?B) ?odbm =
     \<lparr>added = [\<lparr>change_old = \<lparr>entry_in_cache = False, entry_key = [''y''], entry_meta = None,
                               entry_oid = None\<rparr>,
                change_new = \<lparr>entry_in_cache = False, entry_key = [''y''],
                               entry_meta = Some ''m'', entry_oid = Some ''d3''\<rparr>\<rparr>],
      deleted = [], modified = [],
      unchanged = [\<lparr>change_old = \<lparr>entry_in_cache = False, entry_key = [''x''],
                                   entry_meta = Some ''m'', entry_oid = Some ''d1''\<rparr>,
                    change_new = \<lparr>entry_in_cache = False, entry_key = [''x''],
                                   entry_meta = Some ''m'', entry_oid = Some ''d1''\<rparr>\<rparr>]\<rparr>"
    by (simp add: diff_def has_key_def tree_entry_of_def)
  have g: "(if \<not> False then detect_conflicts (diff (Some ?A) (Some ?B) ?odbm) else None) = None"
    by (simp add: d detect_conflicts_def)
  have mg: "merge ?odbm None (hash_info ?A) (hash_info ?B) = Inr ?M"
    by (simp add: merge_def load_tree_def l1 l2 d apply_change_def)
  note v = digest_recomputed_before_persist [where H = ?K and odb = ?odbm
      and stdin = "[]" and ?oid1.0 = "''ta''" and ?oid2.0 = "''tb''" and stdin1' = "[]"
      and stdin2' = "[]" and ?h1.0 = "''ta''" and ?h2.0 = "''tb''" and A = ?A and B = ?B
      and force = False and M = ?M, THEN conjunct2, THEN conjunct1]
  from v r1 r2 l1 l2 g mg
  have second: "merge_tree ?K ?odbm [] ''ta'' ''tb'' False
      = ([ShowTree ?xy (Some ''t'')], None, ?odbm @ [(''t'', TreeObj ?xy)],
         Some \<lparr>dict = ?xy, trie = None, hash_info = Some ''t'', fs_path = Some ?xy\<rparr>)"
    by (simp add: odb_add_def has_key_def tree_digest_def)
  from first second show ?thesis by simp
qed

subsection \<open>Merging two trees\<close>

lemma load_tree_of_load:
  "load odb h = Inr (LoadedTree A) \<Longrightarrow> load_tree odb (hash_info A) = Inr A"
  by (auto simp: load_def load_tree_def split: option.splits obj.splits)

lemma comprehension_Inr:
  "comprehension f xs = Inr ys \<longleftrightarrow> map f xs = map Inr ys"
proof (induction xs arbitrary: ys)
  case Nil
  then show ?case by auto
next
  case (Cons x xs)
  show ?case
  proof (cases "f x")
    case (Inl e)
    then show ?thesis by (cases ys) auto
  next
    case fx: (Inr y)
    show ?thesis
    proof (cases "comprehension f xs")
      case (Inl e)
      with Cons.IH fx show ?thesis by (cases ys) auto
    next
      case (Inr zs)
      with Cons.IH fx show ?thesis by (cases ys) auto
    qed
  qed
qed

lemma comprehension_join:
  "\<forall>c\<in>set cs. entry_key (change_old c) \<noteq> [] \<Longrightarrow>
     \<exists>paths. comprehension (\<lambda>c. posixpath_join (entry_key (change_old c))) cs = Inr paths"
proof (induction cs)
  case Nil
  then show ?case by simp
next
  case (Cons c cs)
  then obtain paths where
    "comprehension (\<lambda>c. posixpath_join (entry_key (change_old c))) cs = Inr paths" by auto
  moreover from Cons.prems obtain a p where "entry_key (change_old c) = a # p"
    by (cases "entry_key (change_old c)") auto
  ultimately show ?case by (simp add: posixpath_join_def)
qed

lemma detect_conflicts_cases:
  fixes d :: diff_result
  defines "cs \<equiv> filter (\<lambda>c. entry_key (change_old c) \<noteq> ROOT) (modified d)"
  shows "cs = [] \<Longrightarrow> detect_conflicts d = None"
    and "cs \<noteq> [] \<Longrightarrow> \<exists>paths.
           map (\<lambda>c. posixpath_join (entry_key (change_old c))) cs = map Inr paths
           \<and> detect_conflicts d =
               Some (Text ''Following files in conflicts:'' # map Text paths, Exit 1)"
proof -
  show "cs = [] \<Longrightarrow> detect_conflicts d = None"
    by (simp add: detect_conflicts_def cs_def)
  assume ne: "cs \<noteq> []"
  have "\<forall>c\<in>set cs. entry_key (change_old c) \<noteq> []"
    by (simp add: cs_def ROOT_def)
  from comprehension_join [OF this] obtain paths where
    p: "comprehension (\<lambda>c. posixpath_join (entry_key (change_old c))) cs = Inr paths" by blast
  then have m: "map (\<lambda>c. posixpath_join (entry_key (change_old c))) cs = map Inr paths"
    by (simp add: comprehension_Inr)
  with ne have "paths \<noteq> []" by auto
  with p m show "\<exists>paths.
           map (\<lambda>c. posixpath_join (entry_key (change_old c))) cs = map Inr paths
           \<and> detect_conflicts d =
               Some (Text ''Following files in conflicts:'' # map Text paths, Exit 1)"
    by (auto simp: detect_conflicts_def cs_def)
qed


text \<open>
  C1. Let the two arguments resolve to stored trees \<open>A\<close> and \<open>B\<close>, and let \<open>cs\<close> be the
  modified changes of \<open>diff(A, B)\<close> whose key is not the root. Without force,
  \<open>merge_tree\<close> exits with code 1 exactly when \<open>cs\<close> is not empty, and it then echoes the
  heading and the joined path of every change of \<open>cs\<close>, in order, and leaves the store as
  it was; when \<open>cs\<close> is empty it succeeds. With force it never looks at the diff: it
  succeeds with the merged tree whatever the diff holds.
\<close>

theorem merge_tree_conflict_detection:
  assumes r1: "from_shortoid odb stdin oid1 = Inr (stdin1, h1)"
    and r2: "from_shortoid odb stdin1 oid2 = Inr (stdin2, h2)"
    and l1: "load odb h1 = Inr (LoadedTree A)"
    and l2: "load odb h2 = Inr (LoadedTree B)"
  shows "let cs = filter (\<lambda>c. entry_key (change_old c) \<noteq> ROOT)
                    (modified (diff (Some A) (Some B) odb)) in
     ((\<exists>out odb' res. merge_tree H odb stdin oid1 oid2 False = (out, Some (Exit 1), odb', res))
        \<longleftrightarrow> cs \<noteq> [])
   \<and> (cs \<noteq> [] \<longrightarrow>
        (\<exists>paths. map (\<lambda>c. posixpath_join (entry_key (change_old c))) cs = map Inr paths
           \<and> merge_tree H odb stdin oid1 oid2 False =
               (Text ''Following files in conflicts:'' # map Text paths, Some (Exit 1), odb, None)))
   \<and> (cs = [] \<longrightarrow>
        (\<exists>out odb' t. merge_tree H odb stdin oid1 oid2 False = (out, None, odb', Some t)))
   \<and> (\<exists>M. merge odb None (hash_info A) (hash_info B) = Inr M
        \<and> merge_tree H odb stdin oid1 oid2 True =
            ([ShowTree (dict M) (Some (H (dict M)))], None,
             odb_add odb (H (dict M)) (TreeObj (dict M)), Some (tree_digest H M)))"
proof -
  define cs where "cs = filter (\<lambda>c. entry_key (change_old c) \<noteq> ROOT)
                    (modified (diff (Some A) (Some B) odb))"
  obtain M where M: "merge odb None (hash_info A) (hash_info B) = Inr M"
    by (simp add: merge_def load_tree_of_load [OF l1] load_tree_of_load [OF l2] Let_def)
  have forced: "merge_tree H odb stdin oid1 oid2 True =
            ([ShowTree (dict M) (Some (H (dict M)))], None,
             odb_add odb (H (dict M)) (TreeObj (dict M)), Some (tree_digest H M))"
    using r1 r2 l1 l2 M by (simp add: merge_tree_def persist_fresh tree_digest_sel Let_def)
  have clean: "cs = [] \<Longrightarrow> merge_tree H odb stdin oid1 oid2 False =
            ([ShowTree (dict M) (Some (H (dict M)))], None,
             odb_add odb (H (dict M)) (TreeObj (dict M)), Some (tree_digest H M))"
    using r1 r2 l1 l2 M detect_conflicts_cases(1) [of "diff (Some A) (Some B) odb"]
    by (simp add: merge_tree_def persist_fresh tree_digest_sel Let_def cs_def)
  have conflict: "\<exists>paths. map (\<lambda>c. posixpath_join (entry_key (change_old c))) cs = map Inr paths
           \<and> merge_tree H odb stdin oid1 oid2 False =
               (Text ''Following files in conflicts:'' # map Text paths, Some (Exit 1), odb, None)"
    if "cs \<noteq> []"
  proof -
    from detect_conflicts_cases(2) [of "diff (Some A) (Some B) odb"] that
    obtain paths where
      p: "map (\<lambda>c. posixpath_join (entry_key (change_old c))) cs = map Inr paths"
      "detect_conflicts (diff (Some A) (Some B) odb) =
         Some (Text ''Following files in conflicts:'' # map Text paths, Exit 1)"
      unfolding cs_def by blast
    from r1 r2 l1 l2 p(2) have "merge_tree H odb stdin oid1 oid2 False =
               (Text ''Following files in conflicts:'' # map Text paths, Some (Exit 1), odb, None)"
      by (simp add: merge_tree_def)
    with p(1) show ?thesis by blast
  qed
  have "(\<exists>out odb' res. merge_tree H odb stdin oid1 oid2 False = (out, Some (Exit 1), odb', res))
        \<longleftrightarrow> cs \<noteq> []"
    using clean conflict by (cases "cs = []") auto
  with clean conflict forced M show ?thesis
    unfolding Let_def cs_def [symmetric] by auto
qed


theorem merge_tree_conflict_detection_witness:
  "merge_tree (\<lambda>d. ''t'')
      [(''ta'', TreeObj [([''x''], (''m'', ''d1''))]),
       (''tb'', TreeObj [([''x''], (''m'', ''d2'')), ([''y''], (''m'', ''d3''))])]
      [] ''ta'' ''tb'' False
    = ([Text ''Following files in conflicts:'', Text ''x''], Some (Exit 1),
       [(''ta'', TreeObj [([''x''], (''m'', ''d1''))]),
        (''tb'', TreeObj [([''x''], (''m'', ''d2'')), ([''y''], (''m'', ''d3''))])], None)
   \<and> merge_tree (\<lambda>d. ''t'')
      [(''ta'', TreeObj [([''x''], (''m'', ''d1''))]),
       (''tb'', TreeObj [([''x''], (''m'', ''d2'')), ([''y''], (''m'', ''d3''))])]
      [] ''ta'' ''tb'' True
    = ([ShowTree [([''x''], (''m'', ''d2'')), ([''y''], (''m'', ''d3''))] (Some ''t'')], None,
       [(''ta'', TreeObj [([''x''], (''m'', ''d1''))]),
        (''tb'', TreeObj [([''x''], (''m'', ''d2'')), ([''y''], (''m'', ''d3''))]),
        (''t'', TreeObj [([''x''], (''m'', ''d2'')), ([''y''], (''m'', ''d3''))])],
       Some \<lparr>dict = [([''x''], (''m'', ''d2'')), ([''y''], (''m'', ''d3''))], trie = None,
             hash_info = Some ''t'',
             fs_path = Some [([''x''], (''m'', ''d2'')), ([''y''], (''m'', ''d3''))]\<rparr>)"
proof -
  let ?a = "[([''x''], (''m'', ''d1''))]"
  let ?b = "[([''x''], (''m'', ''d2'')), ([''y''], (''m'', ''d3''))]"
  let ?odb = "[(''ta'', TreeObj ?a), (''tb'', TreeObj ?b)]"
  let ?A = "\<lparr>dict = ?a, trie = None, hash_info = Some ''ta'', fs_path = Some ?a\<rparr>"
  let ?B = "\<lparr>dict = ?b, trie = None, hash_info = Some ''tb'', fs_path = Some ?b\<rparr>"
  have r1: "from_shortoid ?odb [] ''ta'' = Inr ([], ''ta'')"
    by (simp add: from_shortoid_def exists_prefix_def startswith_def)
  have r2: "from_shortoid ?odb [] ''tb'' = Inr ([], ''tb'')"
    by (simp add: from_shortoid_def exists_prefix_def startswith_def)
  have l1: "load ?odb ''ta'' = Inr (LoadedTree ?A)"
    by (simp add: load_def)
  have l2: "load ?odb ''tb'' = Inr (LoadedTree ?B)"
    by (simp add: load_def)
  have d: "diff (Some ?A) (Some ?B) ?odb =
     \<lparr>added = [\<lparr>change_old = \<lparr>entry_in_cache = False, entry_key = [''y''], entry_meta = None,
                               entry_oid = None\<rparr>,
                change_new = \<lparr>entry_in_cache = False, entry_key = [''y''],
                               entry_meta = Some ''m'', entry_oid = Some ''d3''\<rparr>\<rparr>],
      deleted = [],
      modified = [\<lparr>change_old = \<lparr>entry_in_cache = False, entry_key = [''x''],
                                  entry_meta = Some ''m'', entry_oid = Some ''d1''\<rparr>,
                   change_new = \<lparr>entry_in_cache = False, entry_key = [''x''],
                                  entry_meta = Some ''m'', entry_oid = Some ''d2''\<rparr>\<rparr>],
      unchanged = []\<rparr>"
    by (simp add: diff_def has_key_def tree_entry_of_def)
  have m: "merge ?odb None (Some ''ta'') (Some ''tb'') =
      Inr \<lparr>dict = ?b, trie = None, hash_info = None, fs_path = None\<rparr>"
    by (simp add: merge_def load_tree_def l1 l2 d apply_change_def)
  from merge_tree_conflict_detection [OF r1 r2 l1 l2, of "\<lambda>d. ''t''"]
  show ?thesis
    by (auto simp: Let_def d m ROOT_def posixpath_join_def odb_add_def has_key_def
        tree_digest_def)
qed


end
